theory Spec2Isabelle
  imports Main "HOL-Library.FSet"
begin

section \<open>String helpers of the Go standard library used by the router\<close>

text \<open>
  Go strings are byte sequences; \<^typ>\<open>string\<close> is a list of bytes as well.
  Only the calls that \<open>router.go\<close> makes are modelled, each with the separator
  or prefix the source passes.
\<close>

definition slash :: char where
  "slash = CHR ''/''"

text \<open>\<open>strings.Trim(p, "/")\<close>: drop every leading and every trailing slash.\<close>

definition strings_Trim :: "string \<Rightarrow> string" where
  "strings_Trim p =
     rev (dropWhile (\<lambda>c. c = slash) (rev (dropWhile (\<lambda>c. c = slash) p)))"

text \<open>
  \<open>strings.Split(s, "/")\<close>: the pieces between the slashes; one more piece
  than there are slashes, so the empty string splits into one empty piece.
\<close>

fun strings_Split :: "string \<Rightarrow> string list" where
  "strings_Split [] = [[]]"
| "strings_Split (c # cs) =
     (let r = strings_Split cs
      in if c = slash then [] # r else (c # hd r) # tl r)"

text \<open>\<open>strings.Join(parts, "/")\<close>.\<close>

fun strings_Join :: "string list \<Rightarrow> string" where
  "strings_Join [] = []"
| "strings_Join [x] = x"
| "strings_Join (x # y # ys) = x @ slash # strings_Join (y # ys)"

text \<open>\<open>strings.HasPrefix(s, c)\<close> and \<open>strings.TrimPrefix(s, c)\<close> for a one-byte prefix.\<close>

definition strings_HasPrefix :: "string \<Rightarrow> char \<Rightarrow> bool" where
  "strings_HasPrefix s c = (case s of [] \<Rightarrow> False | x # _ \<Rightarrow> x = c)"

definition strings_TrimPrefix :: "string \<Rightarrow> char \<Rightarrow> string" where
  "strings_TrimPrefix s c = (if strings_HasPrefix s c then tl s else s)"

section \<open>Path matching (router.go)\<close>

type_synonym params = "string \<rightharpoonup> string"

text \<open>\<open>splitPath\<close>: trim the slashes at both ends, then split on the slash.\<close>

definition splitPath :: "string \<Rightarrow> string list" where
  "splitPath p = strings_Split (strings_Trim p)"

text \<open>\<open>checkWildcard\<close>: does the last part start with a star, and the name after it.\<close>

definition checkWildcard :: "string list \<Rightarrow> bool \<times> string" where
  "checkWildcard parts =
     (if length parts = 0 then (False, [])
      else let lastPart = parts ! (length parts - 1)
           in if strings_HasPrefix lastPart (CHR ''*'')
              then (True, strings_TrimPrefix lastPart (CHR ''*''))
              else (False, []))"

definition validatePartCounts :: "string list \<Rightarrow> string list \<Rightarrow> bool \<Rightarrow> bool" where
  "validatePartCounts patternParts pathParts hasWildcard =
     (if hasWildcard then length pathParts \<ge> length patternParts
      else length patternParts = length pathParts)"

text \<open>
  The loop \<open>for i, patternPart := range patternParts\<close> of \<open>matchPath\<close>: the
  remaining pattern parts, the index \<open>i\<close> of the first of them, and the params
  collected so far. \<open>None\<close> is the early \<open>return false, nil\<close>.
\<close>

fun matchParts :: "string list \<Rightarrow> string list \<Rightarrow> nat \<Rightarrow> params \<Rightarrow> params option" where
  "matchParts [] pathParts i ps = Some ps"
| "matchParts (patternPart # rest) pathParts i ps =
     (if i \<ge> length pathParts then None
      else let pathPart = pathParts ! i
           in if strings_HasPrefix patternPart (CHR '':'')
              then matchParts rest pathParts (i + 1)
                     (ps(strings_TrimPrefix patternPart (CHR '':'') \<mapsto> pathPart))
              else if patternPart \<noteq> pathPart then None
              else matchParts rest pathParts (i + 1) ps)"

text \<open>
  \<open>matchPath\<close> returns the pair of the source: the flag, and the params map,
  where \<open>None\<close> is the nil map of \<open>return false, nil\<close>.
\<close>

definition matchPath :: "string \<Rightarrow> string \<Rightarrow> bool \<times> params option" where
  "matchPath pattern requestPath =
     (if pattern = requestPath then (True, Some Map.empty)
      else
        let patternParts0 = splitPath pattern;
            pathParts = splitPath requestPath;
            (hasWildcard, wildcardName) = checkWildcard patternParts0;
            patternParts = (if hasWildcard then take (length patternParts0 - 1) patternParts0
                            else patternParts0)
        in if \<not> validatePartCounts patternParts pathParts hasWildcard then (False, None)
           else case matchParts patternParts pathParts 0 Map.empty of
                  None \<Rightarrow> (False, None)
                | Some ps \<Rightarrow>
                    if hasWildcard
                    then (True, Some (ps(wildcardName \<mapsto>
                            strings_Join (drop (length patternParts) pathParts))))
                    else (True, Some ps))"

section \<open>Route table (router.go)\<close>

text \<open>
  A route with its method, its pattern, its handler and its own middlewares; the
  documentation metadata plays no part in dispatch. The types of handlers and
  middlewares are parameters here and fixed further down.
\<close>

record ('h, 'm) Route =
  Method :: string
  Path :: string
  Handler :: 'h
  Middlewares :: "'m list"

text \<open>
  \<open>findRoute\<close>: the scan over \<open>r.routes\<close> in registration order. \<open>None\<close> is the
  \<open>return nil, nil\<close> after the loop.
\<close>

fun findRoute :: "('h, 'm) Route list \<Rightarrow> string \<Rightarrow> string
                    \<Rightarrow> (('h, 'm) Route \<times> params option) option" where
  "findRoute [] method path = None"
| "findRoute (route # routes) method path =
     (if Method route \<noteq> method then findRoute routes method path
      else case matchPath (Path route) path of
             (True, ps) \<Rightarrow> Some (route, ps)
           | (False, _) \<Rightarrow> findRoute routes method path)"

text \<open>
  Names for the parts of a pattern as \<open>matchPath\<close> computes them: whether its
  last part is a wildcard, the name of the wildcard, the parts that are compared
  position by position (all parts but the wildcard), and what makes a part a
  parameter and gives its name.
\<close>

definition hasWildcard :: "string \<Rightarrow> bool" where
  "hasWildcard pattern = fst (checkWildcard (splitPath pattern))"

definition wildcardName :: "string \<Rightarrow> string" where
  "wildcardName pattern = snd (checkWildcard (splitPath pattern))"

definition patternPartsOf :: "string \<Rightarrow> string list" where
  "patternPartsOf pattern =
     (if hasWildcard pattern then take (length (splitPath pattern) - 1) (splitPath pattern)
      else splitPath pattern)"

definition isParam :: "string \<Rightarrow> bool" where
  "isParam part = strings_HasPrefix part (CHR '':'')"

definition paramName :: "string \<Rightarrow> string" where
  "paramName part = strings_TrimPrefix part (CHR '':'')"

text \<open>
  The parameter at position \<open>i\<close> keeps its binding when no parameter after it and
  no wildcard has its name.
\<close>

definition lastBinding :: "string \<Rightarrow> nat \<Rightarrow> bool" where
  "lastBinding pattern i =
     (let parts = patternPartsOf pattern;
          name = paramName (parts ! i)
      in name \<notin> set (map paramName (filter isParam (drop (Suc i) parts)))
         \<and> \<not> (hasWildcard pattern \<and> wildcardName pattern = name))"

text \<open>The test of the scan: the method is the request's and the pattern matches the path.\<close>

definition routeMatches :: "('h, 'm) Route \<Rightarrow> string \<Rightarrow> string \<Rightarrow> bool" where
  "routeMatches route method path =
     (Method route = method \<and> fst (matchPath (Path route) path))"

section \<open>Context (per-request state)\<close>

text \<open>
  Values of Go's \<open>any\<close> that the dispatcher itself stores or encodes: strings,
  ints and errors (an error is represented by its message).
\<close>

datatype any = AnyString string | AnyInt int | AnyError string

text \<open>\<open>type H map[string]any\<close> (poltergeist.go).\<close>

type_synonym H = "string \<rightharpoonup> any"

text \<open>
  The two header constants that \<open>Context.JSON\<close> passes to the writer are declared
  among the package's constants; only their names are used.
\<close>

datatype header_const = HeaderContentType | ContentTypeJSON

text \<open>
  The \<open>http.ResponseWriter\<close> belongs to the network layer. It is modelled by the
  calls made on it, oldest first: setting a header, \<open>WriteHeader(code)\<close>, and the
  JSON encoding of a value written to it.
\<close>

datatype writer_call =
    HeaderSet header_const header_const
  | WriteHeader int
  | Encode H

type_synonym ResponseWriter = "writer_call list"

record Request =
  req_Method :: string
  URL_Path :: string

type_synonym addr = nat

text \<open>
  The fields of \<open>Context\<close>. Pointers to objects that are not modelled (\<open>WS\<close>,
  \<open>SSE\<close>, the pipeline) are addresses, \<open>None\<close> for nil. A nil map reads like
  the empty map, and \<open>reset\<close> allocates both maps before a context is used, so the
  maps carry no separate nil value. The mutex \<open>mu\<close> guards \<open>keys\<close> against
  concurrent access and has no sequential content.
\<close>

record Context =
  Writer :: ResponseWriter
  Request :: "Request option"
  Params :: params
  statusCode :: int
  written :: bool
  keys :: "string \<rightharpoonup> any"
  WS :: "addr option"
  SSE :: "addr option"
  pipeline :: "addr option"

definition StatusOK :: int where "StatusOK = 200"
definition StatusNotFound :: int where "StatusNotFound = 404"
definition StatusMethodNotAllowed :: int where "StatusMethodNotAllowed = 405"
definition StatusInternalServerError :: int where "StatusInternalServerError = 500"

text \<open>\<open>&Context{}\<close>, what \<open>pool.New\<close> returns.\<close>

definition zeroContext :: Context where
  "zeroContext = \<lparr>Writer = [], Request = None, Params = Map.empty, statusCode = 0,
     written = False, keys = Map.empty, WS = None, SSE = None, pipeline = None\<rparr>"

text \<open>\<open>Context.reset\<close>: every field but \<open>pipeline\<close> is overwritten.\<close>

definition reset :: "ResponseWriter \<Rightarrow> Request \<Rightarrow> Context \<Rightarrow> Context" where
  "reset w r c = c\<lparr>Writer := w, Request := Some r, Params := Map.empty,
     statusCode := StatusOK, written := False, keys := Map.empty,
     WS := None, SSE := None\<rparr>"

definition Context_Set :: "string \<Rightarrow> any \<Rightarrow> Context \<Rightarrow> Context" where
  "Context_Set key v c = c\<lparr>keys := (keys c)(key \<mapsto> v)\<rparr>"

text \<open>\<open>Context.Get\<close> returns the value and whether the key exists; \<open>None\<close> is "not found".\<close>

definition Context_Get :: "string \<Rightarrow> Context \<Rightarrow> any option" where
  "Context_Get key c = keys c key"

text \<open>\<open>Context.Param\<close>: a missing key of a Go map reads as the empty string.\<close>

definition Context_Param :: "string \<Rightarrow> Context \<Rightarrow> string" where
  "Context_Param key c = (case Params c key of None \<Rightarrow> [] | Some v \<Rightarrow> v)"

definition Context_Written :: "Context \<Rightarrow> bool" where
  "Context_Written c = written c"

text \<open>
  A Go \<open>error\<close> is represented by its message, \<open>None\<close> is the nil error.
  \<open>Context.JSON\<close> sets the content type, writes the status line, marks the
  context written and encodes; the encoder's error is that of the writer, which
  is taken to accept the bytes.
\<close>

type_synonym error = string

definition Context_JSON :: "int \<Rightarrow> H \<Rightarrow> Context \<Rightarrow> error option \<times> Context" where
  "Context_JSON code v c =
     (None, c\<lparr>Writer := Writer c @
                 [HeaderSet HeaderContentType ContentTypeJSON, WriteHeader code, Encode v],
               written := True\<rparr>)"

definition Context_Error :: "int \<Rightarrow> string \<Rightarrow> Context \<Rightarrow> error option \<times> Context" where
  "Context_Error code message c = Context_JSON code [''error'' \<mapsto> AnyString message] c"

definition Context_InternalServerError :: "string \<Rightarrow> Context \<Rightarrow> error option \<times> Context" where
  "Context_InternalServerError message c = Context_Error StatusInternalServerError message c"

section \<open>Event pipeline (events.go)\<close>

type_synonym EventType = string

definition EventBeforeRequest :: EventType where "EventBeforeRequest = ''before_request''"
definition EventAfterRequest :: EventType where "EventAfterRequest = ''after_request''"
definition EventError :: EventType where "EventError = ''on_error''"
definition EventServerStart :: EventType where "EventServerStart = ''server_start''"
definition EventServerStop :: EventType where "EventServerStop = ''server_stop''"

text \<open>
  The handler lists by event kind. A Go slice read out of the map keeps its
  length, and \<open>append\<close> only writes behind the length of the slice it extends, so
  a slice once read is an immutable list. The handlers are of any type \<open>'h\<close>:
  closures over contexts for the router, names of closures where handlers act on
  the pipeline that holds them.
\<close>

record 'h EventPipeline =
  handlers :: "EventType \<rightharpoonup> 'h list"

definition NewEventPipeline :: "'h EventPipeline" where
  "NewEventPipeline = \<lparr>handlers = Map.empty\<rparr>"

text \<open>\<open>p.handlers[event]\<close>: the nil slice for a kind without an entry.\<close>

definition handlersOf :: "'h EventPipeline \<Rightarrow> EventType \<Rightarrow> 'h list" where
  "handlersOf p event = (case handlers p event of None \<Rightarrow> [] | Some hs \<Rightarrow> hs)"

definition On :: "EventType \<Rightarrow> 'h \<Rightarrow> 'h EventPipeline \<Rightarrow> 'h EventPipeline" where
  "On event handler p = p\<lparr>handlers := (handlers p)(event \<mapsto> handlersOf p event @ [handler])\<rparr>"

definition Off :: "EventType \<Rightarrow> 'h EventPipeline \<Rightarrow> 'h EventPipeline" where
  "Off event p = p\<lparr>handlers := (handlers p)(event := None)\<rparr>"

definition HasHandlers :: "'h EventPipeline \<Rightarrow> EventType \<Rightarrow> bool" where
  "HasHandlers p event = (length (handlersOf p event) > 0)"

text \<open>
  The loop of \<open>Emit\<close> over the slice read under the lock. \<open>call h c s\<close> is the
  state after handler \<open>h\<close> ran on the context pointer \<open>c\<close> in state \<open>s\<close>; the
  context argument is \<open>None\<close> for nil. The result is the handlers that were
  invoked, in the order of their invocation, and the final state.
\<close>

fun emitLoop :: "('h \<Rightarrow> 'c \<Rightarrow> 's \<Rightarrow> 's) \<Rightarrow> 'h list \<Rightarrow> 'c option \<Rightarrow> 's \<Rightarrow> 'h list \<times> 's" where
  "emitLoop call [] ctx s = ([], s)"
| "emitLoop call (handler # rest) ctx s =
     (case ctx of
        None \<Rightarrow> emitLoop call rest ctx s
      | Some c \<Rightarrow>
          (let s1 = call handler c s;
               (invoked, s2) = emitLoop call rest ctx s1
           in (handler # invoked, s2)))"

definition Emit :: "('h \<Rightarrow> 'c \<Rightarrow> 's \<Rightarrow> 's) \<Rightarrow> 'h EventPipeline \<Rightarrow> EventType \<Rightarrow> 'c option
                      \<Rightarrow> 's \<Rightarrow> 'h list \<times> 's" where
  "Emit call p event ctx s = emitLoop call (handlersOf p event) ctx s"

text \<open>
  \<open>EmitAsync\<close> starts one goroutine per handler; what they do afterwards is not
  modelled. The result is the goroutines started: handler and context.
\<close>

fun emitAsyncLoop :: "'h list \<Rightarrow> 'c option \<Rightarrow> ('h \<times> 'c) list" where
  "emitAsyncLoop [] ctx = []"
| "emitAsyncLoop (handler # rest) ctx =
     (case ctx of
        None \<Rightarrow> emitAsyncLoop rest ctx
      | Some c \<Rightarrow> (handler, c) # emitAsyncLoop rest ctx)"

definition EmitAsync :: "'h EventPipeline \<Rightarrow> EventType \<Rightarrow> 'c option \<Rightarrow> ('h \<times> 'c) list" where
  "EmitAsync p event ctx = emitAsyncLoop (handlersOf p event) ctx"

text \<open>
  Closures registered on a server's pipeline: a handler given to \<open>On\<close> as it
  is, or the wrapper \<open>func(ctx *Context) { handler() }\<close> that
  \<open>OnServerStart\<close> and \<open>OnServerStop\<close> build around a \<open>func()\<close>.
\<close>

datatype 'f closure = Plain 'f | NoArg 'f

definition OnServerStart :: "'f \<Rightarrow> 'f closure EventPipeline \<Rightarrow> 'f closure EventPipeline" where
  "OnServerStart handler p = On EventServerStart (NoArg handler) p"

definition OnServerStop :: "'f \<Rightarrow> 'f closure EventPipeline \<Rightarrow> 'f closure EventPipeline" where
  "OnServerStop handler p = On EventServerStop (NoArg handler) p"

text \<open>
  The part of \<open>Server.Run\<close>, \<open>Server.Shutdown\<close> and
  \<open>Server.runWithGracefulShutdown\<close> that concerns the pipeline (server.go): each
  emits with a nil context. \<open>Shutdown\<close> returns at once when no HTTP server was
  created; \<open>httpServer\<close> says whether one was.
\<close>

definition Server_Run_emit :: "('h \<Rightarrow> 'c \<Rightarrow> 's \<Rightarrow> 's) \<Rightarrow> 'h EventPipeline \<Rightarrow> 's \<Rightarrow> 'h list \<times> 's" where
  "Server_Run_emit call p s = Emit call p EventServerStart None s"

definition Server_Shutdown_emit :: "('h \<Rightarrow> 'c \<Rightarrow> 's \<Rightarrow> 's) \<Rightarrow> bool \<Rightarrow> 'h EventPipeline \<Rightarrow> 's
                                      \<Rightarrow> 'h list \<times> 's" where
  "Server_Shutdown_emit call httpServer p s =
     (if \<not> httpServer then ([], s) else Emit call p EventServerStop None s)"

definition Server_runWithGracefulShutdown_emit ::
    "('h \<Rightarrow> 'c \<Rightarrow> 's \<Rightarrow> 's) \<Rightarrow> 'h EventPipeline \<Rightarrow> 's \<Rightarrow> 'h list \<times> 's" where
  "Server_runWithGracefulShutdown_emit call p s = Emit call p EventServerStop None s"

section \<open>Dispatch (router.go)\<close>

text \<open>
  \<open>HandlerFunc\<close> is \<open>func(*Context) error\<close>: the handler changes the context
  it is given and returns an error or nil. \<open>MiddlewareFunc\<close> wraps a handler.
  Event handlers of the router's pipeline are \<open>func(ctx *Context)\<close>.
\<close>

type_synonym HandlerFunc = "Context \<Rightarrow> error option \<times> Context"
type_synonym MiddlewareFunc = "HandlerFunc \<Rightarrow> HandlerFunc"
type_synonym EventHandler = "Context \<Rightarrow> Context"

text \<open>
  The router: \<open>pipeline\<close> is a pointer, here the address together with the
  pipeline it points to, \<open>None\<close> for nil. The pool is not a field of the model:
  \<open>ServeHTTP\<close> below takes the context that \<open>pool.Get\<close> handed out, whichever
  it is.
\<close>

record Router =
  routes :: "(HandlerFunc, MiddlewareFunc) Route list"
  middlewares :: "MiddlewareFunc list"
  notFound :: "HandlerFunc option"
  methodNotAllowed :: "HandlerFunc option"
  router_pipeline :: "(addr \<times> EventHandler EventPipeline) option"

definition addRoute :: "string \<Rightarrow> string \<Rightarrow> HandlerFunc \<Rightarrow> MiddlewareFunc list \<Rightarrow> Router \<Rightarrow> Router" where
  "addRoute method routePath handler mws r =
     r\<lparr>routes := routes r @
          [\<lparr>Method = method, Path = routePath, Handler = handler, Middlewares = mws\<rparr>]\<rparr>"

definition Use :: "MiddlewareFunc list \<Rightarrow> Router \<Rightarrow> Router" where
  "Use mws r = r\<lparr>middlewares := middlewares r @ mws\<rparr>"

text \<open>
  The loops \<open>for i := len(ms) - 1; i >= 0; i--\<close> of \<open>buildMiddlewareChain\<close>:
  the counter \<open>n\<close> is \<open>i + 1\<close>, so that the loop ends at \<open>0\<close>.
\<close>

fun applyMiddlewares :: "('h \<Rightarrow> 'h) list \<Rightarrow> nat \<Rightarrow> 'h \<Rightarrow> 'h" where
  "applyMiddlewares ms 0 handler = handler"
| "applyMiddlewares ms (Suc i) handler = applyMiddlewares ms i ((ms ! i) handler)"

definition buildMiddlewareChain :: "('h \<Rightarrow> 'h) list \<Rightarrow> ('h, 'h \<Rightarrow> 'h) Route \<Rightarrow> 'h" where
  "buildMiddlewareChain globals route =
     (let handler = Handler route;
          handler = applyMiddlewares (Middlewares route) (length (Middlewares route)) handler;
          handler = applyMiddlewares globals (length globals) handler
      in handler)"

text \<open>\<open>emitEvent\<close>: emit on the router's pipeline unless it is nil; the context pointer is not nil.\<close>

definition emitEvent :: "Router \<Rightarrow> EventType \<Rightarrow> Context \<Rightarrow> Context" where
  "emitEvent r event c =
     (case router_pipeline r of
        None \<Rightarrow> c
      | Some (a, p) \<Rightarrow> snd (Emit (\<lambda>handler (ctx :: unit) s. handler s) p event (Some ()) c))"

text \<open>
  The loop of \<open>handleNoMatch\<close>: \<open>Some\<close> is the return from inside the loop at
  the first route whose pattern matches the path, \<open>None\<close> is falling out of it.
\<close>

fun handleNoMatchLoop :: "(HandlerFunc, MiddlewareFunc) Route list \<Rightarrow> HandlerFunc option
                            \<Rightarrow> Context \<Rightarrow> string \<Rightarrow> (error option \<times> Context) option" where
  "handleNoMatchLoop [] mna c reqPath = None"
| "handleNoMatchLoop (route # rest) mna c reqPath =
     (if fst (matchPath (Path route) reqPath)
      then (case mna of
              Some h \<Rightarrow> Some (h c)
            | None \<Rightarrow> Some (Context_Error StatusMethodNotAllowed ''Method Not Allowed'' c))
      else handleNoMatchLoop rest mna c reqPath)"

definition handleNoMatch :: "Router \<Rightarrow> Context \<Rightarrow> string \<Rightarrow> error option \<times> Context" where
  "handleNoMatch r c reqPath =
     (case handleNoMatchLoop (routes r) (methodNotAllowed r) c reqPath of
        Some res \<Rightarrow> res
      | None \<Rightarrow>
          (case notFound r of
             Some h \<Rightarrow> h c
           | None \<Rightarrow> Context_Error StatusNotFound ''Not Found'' c))"

text \<open>
  \<open>handleRequest\<close>. The params of a found route are never the nil map; the case
  is there because the type of \<open>findRoute\<close> has it.
\<close>

definition handleRequest :: "Router \<Rightarrow> Context \<Rightarrow> Request \<Rightarrow> error option \<times> Context" where
  "handleRequest r c req =
     (let reqPath = URL_Path req
      in case findRoute (routes r) (req_Method req) reqPath of
           None \<Rightarrow> handleNoMatch r c reqPath
         | Some (route, ps) \<Rightarrow>
             (let c1 = c\<lparr>Params := (case ps of None \<Rightarrow> Map.empty | Some m \<Rightarrow> m)\<rparr>;
                  handler = buildMiddlewareChain (middlewares r) route
              in handler c1))"

definition handleError :: "Router \<Rightarrow> Context \<Rightarrow> error \<Rightarrow> Context" where
  "handleError r c err =
     (let c1 = Context_Set ''error'' (AnyError err) c;
          c2 = emitEvent r EventError c1
      in if \<not> Context_Written c2 then snd (Context_InternalServerError err c2) else c2)"

text \<open>
  \<open>ServeHTTP\<close>: \<open>c\<close> is the context taken from the pool, the result is the
  context put back into it by the deferred \<open>pool.Put\<close>.
\<close>

definition ServeHTTP :: "Router \<Rightarrow> Context \<Rightarrow> ResponseWriter \<Rightarrow> Request \<Rightarrow> Context" where
  "ServeHTTP r c w req =
     (let c1 = reset w req c;
          c2 = c1\<lparr>pipeline := map_option fst (router_pipeline r)\<rparr>;
          c3 = emitEvent r EventBeforeRequest c2;
          (err, c4) = handleRequest r c3 req;
          c5 = (case err of Some e \<Rightarrow> handleError r c4 e | None \<Rightarrow> c4)
      in emitEvent r EventAfterRequest c5)"

section \<open>Room hub (hub.go)\<close>

text \<open>
  \<open>rooms\<close> is \<open>map[string]map[string]bool\<close>, "room -> set of client IDs": the
  only value ever stored in an inner map is \<open>true\<close>, so an inner map is the
  finite set of its keys. The lock serialises the operations; each is atomic here.
\<close>

record BaseHub =
  rooms :: "string \<rightharpoonup> string fset"
  running :: bool

definition newBaseHub :: BaseHub where
  "newBaseHub = \<lparr>rooms = Map.empty, running = False\<rparr>"

definition addToRoom :: "string \<Rightarrow> string \<Rightarrow> BaseHub \<Rightarrow> BaseHub" where
  "addToRoom clientID room h =
     (let clients = (case rooms h room of None \<Rightarrow> {||} | Some cl \<Rightarrow> cl)
      in h\<lparr>rooms := (rooms h)(room \<mapsto> finsert clientID clients)\<rparr>)"

definition removeFromRoom :: "string \<Rightarrow> string \<Rightarrow> BaseHub \<Rightarrow> BaseHub" where
  "removeFromRoom clientID room h =
     (case rooms h room of
        Some clients \<Rightarrow>
          (let clients1 = clients |-| {|clientID|}
           in if fcard clients1 = 0 then h\<lparr>rooms := (rooms h)(room := None)\<rparr>
              else h\<lparr>rooms := (rooms h)(room \<mapsto> clients1)\<rparr>)
      | None \<Rightarrow> h)"

text \<open>
  \<open>removeFromAllRooms\<close> ranges over the map; each iteration changes the entry of
  its own room only, so the result is given room by room.
\<close>

definition removeFromAllRooms :: "string \<Rightarrow> BaseHub \<Rightarrow> BaseHub" where
  "removeFromAllRooms clientID h =
     h\<lparr>rooms := (\<lambda>room.
          case rooms h room of
            None \<Rightarrow> None
          | Some clients \<Rightarrow>
              (let clients1 = clients |-| {|clientID|}
               in if fcard clients1 = 0 then None else Some clients1))\<rparr>"

text \<open>
  \<open>getRoomClientIDs\<close> collects the keys of the inner map in the order of Go's
  map iteration, which is not fixed: the result is the set of the ids, empty for
  the nil slice of a missing room.
\<close>

definition getRoomClientIDs :: "BaseHub \<Rightarrow> string \<Rightarrow> string fset" where
  "getRoomClientIDs h room = (case rooms h room of None \<Rightarrow> {||} | Some clients \<Rightarrow> clients)"

definition roomCount :: "BaseHub \<Rightarrow> string \<Rightarrow> nat" where
  "roomCount h room = (case rooms h room of Some clients \<Rightarrow> fcard clients | None \<Rightarrow> 0)"

text \<open>The operations of the hub as data, and a run of a sequence of them.\<close>

datatype hub_op = Join string string | Leave string string | LeaveAll string

fun applyOp :: "hub_op \<Rightarrow> BaseHub \<Rightarrow> BaseHub" where
  "applyOp (Join c r) h = addToRoom c r h"
| "applyOp (Leave c r) h = removeFromRoom c r h"
| "applyOp (LeaveAll c) h = removeFromAllRooms c h"

definition runOps :: "hub_op list \<Rightarrow> BaseHub \<Rightarrow> BaseHub" where
  "runOps ops h = fold applyOp ops h"

text \<open>
  The membership the specification describes: the clients that joined the room
  and have not left it since, computed from the sequence of operations alone.
\<close>

fun specStep :: "string \<Rightarrow> hub_op \<Rightarrow> string set \<Rightarrow> string set" where
  "specStep room (Join c r) S = (if r = room then insert c S else S)"
| "specStep room (Leave c r) S = (if r = room then S - {c} else S)"
| "specStep room (LeaveAll c) S = S - {c}"

definition specMembers :: "hub_op list \<Rightarrow> string \<Rightarrow> string set" where
  "specMembers ops room = fold (specStep room) ops {}"

text \<open>The invariant of the room table: no entry for a room without members.\<close>

definition noEmptyRoom :: "BaseHub \<Rightarrow> bool" where
  "noEmptyRoom h = (\<forall>room clients. rooms h room = Some clients \<longrightarrow> clients \<noteq> {||})"

section \<open>Middlewares that act before and after the next handler\<close>

text \<open>
  The shape of a middleware that observes a request on its way in and the response
  on its way out: \<open>func(next) { return func(c) { before(c); err := next(c); after(c); return err } }\<close>.
  It is the yardstick for the order in which the links of a chain run.
\<close>

definition wrapping :: "('s \<Rightarrow> 's) \<times> ('s \<Rightarrow> 's) \<Rightarrow> ('s \<Rightarrow> 'e \<times> 's) \<Rightarrow> ('s \<Rightarrow> 'e \<times> 's)" where
  "wrapping ba next = (\<lambda>c. let (err, c1) = next (fst ba c) in (err, snd ba c1))"

text \<open>A middleware that appends its name to a log on the way in and on the way out.\<close>

definition logging :: "string \<Rightarrow> (string list \<Rightarrow> string list) \<times> (string list \<Rightarrow> string list)" where
  "logging name = ((\<lambda>l. l @ [name @ ''>'']), (\<lambda>l. l @ [''<'' @ name]))"

definition loggingHandler :: "string list \<Rightarrow> unit \<times> string list" where
  "loggingHandler l = ((), l @ [''handler''])"

section \<open>Example data\<close>

text \<open>Routes with handlers named by numbers, used where a statement is evaluated.\<close>

definition routeUsersId :: "(nat, nat) Route" where
  "routeUsersId = \<lparr>Method = ''GET'', Path = ''/users/:id'', Handler = 1, Middlewares = []\<rparr>"

definition routeUsers42 :: "(nat, nat) Route" where
  "routeUsers42 = \<lparr>Method = ''GET'', Path = ''/users/42'', Handler = 2, Middlewares = []\<rparr>"

definition routePosts :: "(nat, nat) Route" where
  "routePosts = \<lparr>Method = ''GET'', Path = ''/posts'', Handler = 3, Middlewares = []\<rparr>"

definition routeA1 :: "(nat, nat) Route" where
  "routeA1 = \<lparr>Method = ''GET'', Path = ''/a'', Handler = 10, Middlewares = []\<rparr>"

definition routeA2 :: "(nat, nat) Route" where
  "routeA2 = \<lparr>Method = ''GET'', Path = ''/a'', Handler = 20, Middlewares = []\<rparr>"

text \<open>
  A router for two requests in a row: the handler of \<open>GET /set\<close> stores a key,
  the handler of \<open>GET /get\<close> answers with the key's value, or with an error when
  the key is not there.
\<close>

definition handlerSetUser :: HandlerFunc where
  "handlerSetUser c =
     Context_JSON StatusOK [''ok'' \<mapsto> AnyString ''stored'']
       (Context_Set ''user'' (AnyString ''alice'') c)"

definition handlerGetUser :: HandlerFunc where
  "handlerGetUser c =
     (case Context_Get ''user'' c of
        None \<Rightarrow> Context_Error StatusNotFound ''no user'' c
      | Some v \<Rightarrow> Context_JSON StatusOK [''user'' \<mapsto> v] c)"

definition userRouter :: Router where
  "userRouter =
     \<lparr>routes = [\<lparr>Method = ''GET'', Path = ''/set'', Handler = handlerSetUser, Middlewares = []\<rparr>,
                \<lparr>Method = ''GET'', Path = ''/get'', Handler = handlerGetUser, Middlewares = []\<rparr>],
      middlewares = [], notFound = None, methodNotAllowed = None,
      router_pipeline = Some (0, NewEventPipeline)\<rparr>"

text \<open>A router whose only route is \<open>GET /items\<close>.\<close>

definition handlerItems :: HandlerFunc where
  "handlerItems c = Context_JSON StatusOK [''items'' \<mapsto> AnyInt 0] c"

definition itemsRouter :: Router where
  "itemsRouter =
     \<lparr>routes = [\<lparr>Method = ''GET'', Path = ''/items'', Handler = handlerItems, Middlewares = []\<rparr>],
      middlewares = [], notFound = None, methodNotAllowed = None,
      router_pipeline = Some (0, NewEventPipeline)\<rparr>"

definition request :: "string \<Rightarrow> string \<Rightarrow> Request" where
  "request m p = \<lparr>req_Method = m, URL_Path = p\<rparr>"

section \<open>Properties of the matcher and the route table\<close>

lemmas match_defs = matchPath_def splitPath_def strings_Trim_def slash_def checkWildcard_def
  validatePartCounts_def strings_HasPrefix_def strings_TrimPrefix_def

lemma findRoute_find:
  "findRoute rs meth path =
     map_option (\<lambda>r. (r, snd (matchPath (Path r) path)))
       (find (\<lambda>r. routeMatches r meth path) rs)"
  by (induction rs) (auto simp: routeMatches_def split: prod.splits bool.splits)

lemma find_append_cases:
  "find P (xs @ ys) = (case find P xs of None \<Rightarrow> find P ys | Some x \<Rightarrow> Some x)"
  by (induction xs) auto

lemma find_None_set: "find P xs = None \<longleftrightarrow> (\<forall>x\<in>set xs. \<not> P x)"
  by (induction xs) auto

lemma find_dead_duplicate:
  assumes "P b \<Longrightarrow> P a"
  shows "find P (xs @ a # ys @ b # zs) = find P (xs @ a # ys @ zs)"
  using assms by (auto simp: find_append_cases split: option.splits)

lemma find_swap:
  assumes "\<not> (P a \<and> P b)"
    and "\<forall>y\<in>set ys. P y \<longrightarrow> \<not> P a \<and> \<not> P b"
  shows "find P (xs @ a # ys @ b # zs) = find P (xs @ b # ys @ a # zs)"
proof (cases "find P xs")
  case (Some x)
  then show ?thesis by (simp add: find_append_cases)
next
  case None
  show ?thesis
  proof (cases "P a")
    case True
    then have nb: "\<not> P b" using assms(1) by blast
    from True assms(2) have "\<forall>y\<in>set ys. \<not> P y" by blast
    then have "find P ys = None" by (simp add: find_None_set)
    with None True nb show ?thesis by (simp add: find_append_cases)
  next
    case False
    show ?thesis
    proof (cases "P b")
      case True
      with assms(2) have "\<forall>y\<in>set ys. \<not> P y" by blast
      then have "find P ys = None" by (simp add: find_None_set)
      with None False True show ?thesis by (simp add: find_append_cases)
    next
      case nb: False
      with None False show ?thesis by (simp add: find_append_cases split: option.splits)
    qed
  qed
qed

lemma splitPath_users_id: "splitPath ''/users/:id'' = [''users'', '':id'']"
  by (simp add: splitPath_def strings_Trim_def slash_def)

lemma splitPath_posts: "splitPath ''/posts'' = [''posts'']"
  by (simp add: splitPath_def strings_Trim_def slash_def)

lemma matches_users_id:
  "fst (matchPath ''/users/:id'' p) =
     (p = ''/users/:id'' \<or> (length (splitPath p) = 2 \<and> splitPath p ! 0 = ''users''))"
  unfolding matchPath_def splitPath_users_id
  by (auto simp: Let_def checkWildcard_def validatePartCounts_def strings_HasPrefix_def
        strings_TrimPrefix_def numeral_2_eq_2 split: option.splits if_splits)

lemma matches_posts:
  "fst (matchPath ''/posts'' p) =
     (p = ''/posts'' \<or> (length (splitPath p) = 1 \<and> splitPath p ! 0 = ''posts''))"
  unfolding matchPath_def splitPath_posts
  by (auto simp: Let_def checkWildcard_def validatePartCounts_def strings_HasPrefix_def
        strings_TrimPrefix_def split: option.splits if_splits)

lemma splitPath_a: "splitPath ''/a'' = [''a'']"
  by (simp add: splitPath_def strings_Trim_def slash_def)

lemma matches_a:
  "fst (matchPath ''/a'' p) =
     (p = ''/a'' \<or> (length (splitPath p) = 1 \<and> splitPath p ! 0 = ''a''))"
  unfolding matchPath_def splitPath_a
  by (auto simp: Let_def checkWildcard_def validatePartCounts_def strings_HasPrefix_def
        strings_TrimPrefix_def split: option.splits if_splits)

lemma a_disjoint:
  "routeMatches routeA1 m p \<Longrightarrow> \<not> routeMatches routeUsersId m p \<and> \<not> routeMatches routePosts m p"
  unfolding routeMatches_def routeUsersId_def routePosts_def routeA1_def
  using splitPath_users_id splitPath_posts splitPath_a
  by (auto simp: matches_users_id matches_posts matches_a)

lemma users_id_posts_disjoint:
  "\<not> (routeMatches routeUsersId m p \<and> routeMatches routePosts m p)"
  unfolding routeMatches_def routeUsersId_def routePosts_def
  using splitPath_users_id splitPath_posts
  by (auto simp: matches_users_id matches_posts)

text \<open>
  C1 (as amended). Route resolution returns the first route in registration order
  whose HTTP method is the request's and whose pattern matches the path, with the
  params of that match. A route registered after another one with the same HTTP method and
  pattern is never chosen: the table resolves every request as it does without the
  later duplicate. Exchanging two routes \<open>a\<close> and \<open>b\<close> that never both match the same
  request leaves the resolution of every request unchanged, provided that no route
  registered between them matches a request that \<open>a\<close> or \<open>b\<close> matches (which is so
  when they are adjacent).
\<close>

theorem findRoute_first_match:
  "findRoute rs meth path =
     map_option (\<lambda>r. (r, snd (matchPath (Path r) path)))
       (find (\<lambda>r. routeMatches r meth path) rs)
   \<and> (Method db = Method da \<and> Path db = Path da \<longrightarrow>
        findRoute (us @ da # vs @ db # ws) meth path = findRoute (us @ da # vs @ ws) meth path)
   \<and> ((\<forall>m p. \<not> (routeMatches a m p \<and> routeMatches b m p)) \<and>
       (\<forall>y\<in>set ys. \<forall>m p. routeMatches y m p \<longrightarrow> \<not> routeMatches a m p \<and> \<not> routeMatches b m p) \<longrightarrow>
        findRoute (xs @ a # ys @ b # zs) meth path = findRoute (xs @ b # ys @ a # zs) meth path)"
proof (intro conjI impI)
  show "findRoute rs meth path =
     map_option (\<lambda>r. (r, snd (matchPath (Path r) path)))
       (find (\<lambda>r. routeMatches r meth path) rs)"
    by (rule findRoute_find)
next
  assume same: "Method db = Method da \<and> Path db = Path da"
  then have "routeMatches db meth path \<Longrightarrow> routeMatches da meth path"
    by (simp add: routeMatches_def)
  then have "find (\<lambda>r. routeMatches r meth path) (us @ da # vs @ db # ws) =
             find (\<lambda>r. routeMatches r meth path) (us @ da # vs @ ws)"
    by (rule find_dead_duplicate)
  then show "findRoute (us @ da # vs @ db # ws) meth path = findRoute (us @ da # vs @ ws) meth path"
    by (simp only: findRoute_find)
next
  assume h: "(\<forall>m p. \<not> (routeMatches a m p \<and> routeMatches b m p)) \<and>
       (\<forall>y\<in>set ys. \<forall>m p. routeMatches y m p \<longrightarrow> \<not> routeMatches a m p \<and> \<not> routeMatches b m p)"
  have "find (\<lambda>r. routeMatches r meth path) (xs @ a # ys @ b # zs) =
        find (\<lambda>r. routeMatches r meth path) (xs @ b # ys @ a # zs)"
    by (rule find_swap) (use h in blast)+
  then show "findRoute (xs @ a # ys @ b # zs) meth path = findRoute (xs @ b # ys @ a # zs) meth path"
    by (simp only: findRoute_find)
qed

theorem findRoute_first_match_witness:
  "findRoute [routeA1, routeA2] ''GET'' ''/a'' = Some (routeA1, Some Map.empty)
   \<and> findRoute [routeA1, routeA2] ''GET'' ''/a'' = findRoute [routeA1] ''GET'' ''/a''
   \<and> findRoute [routeUsersId, routeA1, routePosts] ''GET'' ''/posts'' =
       findRoute [routePosts, routeA1, routeUsersId] ''GET'' ''/posts''
   \<and> findRoute [routePosts, routeA1, routeUsersId] ''GET'' ''/posts''
       = Some (routePosts, Some Map.empty)"
proof -
  have same: "Method routeA2 = Method routeA1 \<and> Path routeA2 = Path routeA1"
    by (simp add: routeA1_def routeA2_def)
  have apart: "(\<forall>m p. \<not> (routeMatches routeUsersId m p \<and> routeMatches routePosts m p)) \<and>
       (\<forall>y\<in>set [routeA1]. \<forall>m p. routeMatches y m p \<longrightarrow>
          \<not> routeMatches routeUsersId m p \<and> \<not> routeMatches routePosts m p)"
    using users_id_posts_disjoint a_disjoint by simp
  note inst = findRoute_first_match [where rs = "[routeA1, routeA2]" and meth = "''GET''"
      and da = routeA1 and db = routeA2 and us = "[]" and vs = "[]" and ws = "[]"
      and a = routeUsersId and b = routePosts and xs = "[]" and ys = "[routeA1]" and zs = "[]"]
  have dup: "findRoute [routeA1, routeA2] ''GET'' ''/a'' = findRoute [routeA1] ''GET'' ''/a''"
    using inst [where path = "''/a''", THEN conjunct2, THEN conjunct1] same
    by (simp del: findRoute.simps)
  have swap: "findRoute [routeUsersId, routeA1, routePosts] ''GET'' ''/posts'' =
       findRoute [routePosts, routeA1, routeUsersId] ''GET'' ''/posts''"
    using inst [where path = "''/posts''", THEN conjunct2, THEN conjunct2] apart
    by (simp del: findRoute.simps)
  have r1: "findRoute [routeA1] ''GET'' ''/a'' = Some (routeA1, Some Map.empty)"
    by (simp add: routeA1_def matchPath_def)
  have r2: "findRoute [routePosts, routeA1, routeUsersId] ''GET'' ''/posts''
      = Some (routePosts, Some Map.empty)"
    by (simp add: routePosts_def matchPath_def)
  from dup swap r1 r2 show ?thesis by simp
qed

text \<open>
  C1 as stated fails: \<open>GET /users/:id\<close> and \<open>GET /posts\<close> never match the same
  request, yet exchanging them around \<open>GET /users/42\<close> changes the route that
  \<open>GET /users/42\<close> resolves to.
\<close>

theorem findRoute_reorder_counterexample:
  "(\<forall>m p. \<not> (routeMatches routeUsersId m p \<and> routeMatches routePosts m p))
   \<and> findRoute [routeUsersId, routeUsers42, routePosts] ''GET'' ''/users/42''
       = Some (routeUsersId, Some [''id'' \<mapsto> ''42''])
   \<and> findRoute [routePosts, routeUsers42, routeUsersId] ''GET'' ''/users/42''
       = Some (routeUsers42, Some Map.empty)"
proof (intro conjI)
  show "\<forall>m p. \<not> (routeMatches routeUsersId m p \<and> routeMatches routePosts m p)"
    using users_id_posts_disjoint by blast
  show "findRoute [routeUsersId, routeUsers42, routePosts] ''GET'' ''/users/42''
       = Some (routeUsersId, Some [''id'' \<mapsto> ''42''])"
    by (simp add: routeUsersId_def match_defs)
  show "findRoute [routePosts, routeUsers42, routeUsersId] ''GET'' ''/users/42''
       = Some (routeUsers42, Some Map.empty)"
    by (simp add: routePosts_def routeUsers42_def match_defs)
qed

section \<open>Properties of the middleware chain\<close>

lemma applyMiddlewares_take:
  "n \<le> length ms \<Longrightarrow> applyMiddlewares ms n h = foldr (\<lambda>m k. m k) (take n ms) h"
proof (induction n arbitrary: h)
  case 0
  then show ?case by simp
next
  case (Suc n)
  then have "take (Suc n) ms = take n ms @ [ms ! n]"
    by (simp add: take_Suc_conv_app_nth)
  with Suc show ?case by simp
qed

lemma buildMiddlewareChain_foldr:
  "buildMiddlewareChain globals route =
     foldr (\<lambda>m k. m k) globals (foldr (\<lambda>m k. m k) (Middlewares route) (Handler route))"
  by (simp add: buildMiddlewareChain_def applyMiddlewares_take)

lemma foldr_wrapping:
  "foldr (\<lambda>m k. m k) (map wrapping bas) h c =
     (let (err, c1) = h (fold fst bas c) in (err, fold snd (rev bas) c1))"
proof (induction bas arbitrary: c)
  case Nil
  then show ?case by simp
next
  case (Cons ba bas)
  then show ?case
    by (simp add: wrapping_def split: prod.splits)
qed

text \<open>
  C2. The chain built for a route is \<open>g1 (g2 (\<dots> (gn (r1 (r2 (\<dots> (rm handler)))))))\<close>
  for the global middlewares \<open>g1 \<dots> gn\<close> and the route's middlewares \<open>r1 \<dots> rm\<close>
  in the order of their registration: the route handler is innermost, the
  first-registered middleware of each list is the outermost of its list, and the
  global ones enclose the route's. Hence, when every middleware acts before and
  after calling the next link, a request runs the "before" parts of the global
  middlewares, then those of the route's, then the handler, then the "after" parts
  of the route's middlewares in reverse and at last those of the global ones in
  reverse: each global middleware acts before and after each route-scoped one.
\<close>

theorem buildMiddlewareChain_order:
  "buildMiddlewareChain globals route =
     foldr (\<lambda>m k. m k) globals (foldr (\<lambda>m k. m k) (Middlewares route) (Handler route))
   \<and> buildMiddlewareChain (map wrapping gs)
        \<lparr>Method = m, Path = p, Handler = h, Middlewares = map wrapping ls\<rparr> c =
       (let c1 = fold fst ls (fold fst gs c);
            (err, c2) = h c1
        in (err, fold snd (rev gs) (fold snd (rev ls) c2)))"
proof -
  have "foldr (\<lambda>m k. m k) (map wrapping gs) (foldr (\<lambda>m k. m k) (map wrapping ls) h) c =
       (let c1 = fold fst ls (fold fst gs c);
            (err, c2) = h c1
        in (err, fold snd (rev gs) (fold snd (rev ls) c2)))"
    by (simp add: foldr_wrapping split: prod.splits)
  then show ?thesis by (simp add: buildMiddlewareChain_foldr)
qed

theorem buildMiddlewareChain_order_witness:
  "buildMiddlewareChain (map wrapping [logging ''g1'', logging ''g2''])
     \<lparr>Method = ''GET'', Path = ''/'', Handler = loggingHandler,
      Middlewares = map wrapping [logging ''r1'', logging ''r2'']\<rparr> [] =
   ((), [''g1>'', ''g2>'', ''r1>'', ''r2>'', ''handler'', ''<r2'', ''<r1'', ''<g2'', ''<g1''])"
  using buildMiddlewareChain_order [where gs = "[logging ''g1'', logging ''g2'']"
      and ls = "[logging ''r1'', logging ''r2'']" and h = loggingHandler and c = "[]"
      and m = "''GET''" and p = "''/''", THEN conjunct2]
  by (simp add: logging_def loggingHandler_def)

section \<open>Properties of context reuse and of dispatch\<close>

lemmas dispatch_defs = ServeHTTP_def reset_def emitEvent_def Emit_def handlersOf_def
  NewEventPipeline_def handleRequest_def handleNoMatch_def buildMiddlewareChain_def
  handleError_def Context_JSON_def Context_Error_def Context_Set_def Context_Get_def
  Context_Written_def Context_InternalServerError_def request_def zeroContext_def
  StatusOK_def StatusNotFound_def StatusMethodNotAllowed_def StatusInternalServerError_def
  EventBeforeRequest_def EventAfterRequest_def EventError_def

lemma reset_then_pipeline:
  "(reset w req c)\<lparr>pipeline := a\<rparr> =
     \<lparr>Writer = w, Request = Some req, Params = Map.empty, statusCode = StatusOK,
      written = False, keys = Map.empty, WS = None, SSE = None, pipeline = a\<rparr>"
  by (simp add: reset_def)

lemma ServeHTTP_any_context: "ServeHTTP rt c w req = ServeHTTP rt c' w req"
  by (simp add: ServeHTTP_def reset_then_pipeline)

lemma userRouter_set_stores:
  "keys (ServeHTTP userRouter zeroContext [] (request ''GET'' ''/set'')) ''user''
     = Some (AnyString ''alice'')"
  by (simp add: userRouter_def handlerSetUser_def dispatch_defs match_defs)

lemma userRouter_get_fresh:
  "Writer (ServeHTTP userRouter zeroContext [] (request ''GET'' ''/get'')) =
     [HeaderSet HeaderContentType ContentTypeJSON, WriteHeader 404,
      Encode [''error'' \<mapsto> AnyString ''no user'']]"
  by (simp add: userRouter_def handlerGetUser_def dispatch_defs match_defs)

text \<open>
  C3. The reset at the start of \<open>ServeHTTP\<close> leaves no key in the store (\<open>Get\<close>
  finds nothing, also for a key the previous request had set), empties the path
  params, sets the status to 200 and \<open>written\<close> to false. What \<open>ServeHTTP\<close> does
  with a request does not depend on the context the pool hands out: request B
  served on the context that request A left behind is served as on a new context.
\<close>

theorem reset_isolates_requests:
  "Context_Get k (reset w req c) = None
   \<and> Context_Get k (reset w req (Context_Set k v c)) = None
   \<and> Params (reset w req c) = Map.empty
   \<and> statusCode (reset w req c) = StatusOK
   \<and> written (reset w req c) = False
   \<and> ServeHTTP rt c wB reqB = ServeHTTP rt c' wB reqB
   \<and> ServeHTTP rt (ServeHTTP rt c0 wA reqA) wB reqB = ServeHTTP rt zeroContext wB reqB"
  using ServeHTTP_any_context by (simp add: reset_def Context_Get_def Context_Set_def)

theorem reset_isolates_requests_witness:
  "keys (ServeHTTP userRouter zeroContext [] (request ''GET'' ''/set'')) ''user''
     = Some (AnyString ''alice'')
   \<and> Writer (ServeHTTP userRouter
               (ServeHTTP userRouter zeroContext [] (request ''GET'' ''/set''))
               [] (request ''GET'' ''/get'')) =
       [HeaderSet HeaderContentType ContentTypeJSON, WriteHeader 404,
        Encode [''error'' \<mapsto> AnyString ''no user'']]"
  using reset_isolates_requests [where rt = userRouter and wB = "[]"
      and reqB = "request ''GET'' ''/get''" and wA = "[]"
      and reqA = "request ''GET'' ''/set''" and ?c0.0 = zeroContext,
      THEN conjunct2, THEN conjunct2, THEN conjunct2, THEN conjunct2, THEN conjunct2,
      THEN conjunct2]
    userRouter_set_stores userRouter_get_fresh
  by simp

lemma handleNoMatchLoop_eq:
  "handleNoMatchLoop rs mna c p =
     (if \<exists>route\<in>set rs. fst (matchPath (Path route) p)
      then Some (case mna of Some h \<Rightarrow> h c
                 | None \<Rightarrow> Context_Error StatusMethodNotAllowed ''Method Not Allowed'' c)
      else None)"
  by (induction rs) (auto split: option.splits)

lemma findRoute_None: "findRoute rs m p = None \<longleftrightarrow> (\<forall>route\<in>set rs. \<not> routeMatches route m p)"
  by (simp add: findRoute_find find_None_set)

text \<open>
  C4. When no registered route matches the request on method and path, dispatch
  answers by a second scan that ignores the method: if the pattern of some
  registered route matches the path, the custom 405 handler runs if one is
  installed, and otherwise the response is status 405 with the JSON body
  \<open>{"error": "Method Not Allowed"}\<close>; if no pattern matches the path, the custom
  404 handler runs if one is installed, and otherwise the response is status 404
  with the body \<open>{"error": "Not Found"}\<close>.
\<close>

theorem handleRequest_no_match:
  assumes "\<forall>route\<in>set (routes rt). \<not> routeMatches route (req_Method req) (URL_Path req)"
  shows "handleRequest rt c req =
     (if \<exists>route\<in>set (routes rt). fst (matchPath (Path route) (URL_Path req))
      then (case methodNotAllowed rt of
              Some h \<Rightarrow> h c
            | None \<Rightarrow> (None, c\<lparr>Writer := Writer c @
                  [HeaderSet HeaderContentType ContentTypeJSON, WriteHeader 405,
                   Encode [''error'' \<mapsto> AnyString ''Method Not Allowed'']],
                  written := True\<rparr>))
      else (case notFound rt of
              Some h \<Rightarrow> h c
            | None \<Rightarrow> (None, c\<lparr>Writer := Writer c @
                  [HeaderSet HeaderContentType ContentTypeJSON, WriteHeader 404,
                   Encode [''error'' \<mapsto> AnyString ''Not Found'']],
                  written := True\<rparr>)))"
proof -
  from assms have "findRoute (routes rt) (req_Method req) (URL_Path req) = None"
    by (simp add: findRoute_None)
  then show ?thesis
    by (simp add: handleRequest_def handleNoMatch_def handleNoMatchLoop_eq Context_Error_def
        Context_JSON_def StatusMethodNotAllowed_def StatusNotFound_def split: option.splits)
qed

theorem handleRequest_no_match_witness:
  "handleRequest itemsRouter zeroContext (request ''DELETE'' ''/items'') =
     (None, zeroContext\<lparr>Writer :=
        [HeaderSet HeaderContentType ContentTypeJSON, WriteHeader 405,
         Encode [''error'' \<mapsto> AnyString ''Method Not Allowed'']], written := True\<rparr>)
   \<and> handleRequest itemsRouter zeroContext (request ''DELETE'' ''/other'') =
     (None, zeroContext\<lparr>Writer :=
        [HeaderSet HeaderContentType ContentTypeJSON, WriteHeader 404,
         Encode [''error'' \<mapsto> AnyString ''Not Found'']], written := True\<rparr>)
   \<and> Writer (ServeHTTP itemsRouter zeroContext [] (request ''DELETE'' ''/items'')) =
       [HeaderSet HeaderContentType ContentTypeJSON, WriteHeader 405,
        Encode [''error'' \<mapsto> AnyString ''Method Not Allowed'']]"
proof -
  have no1: "\<forall>route\<in>set (routes itemsRouter).
      \<not> routeMatches route (req_Method (request ''DELETE'' ''/items''))
          (URL_Path (request ''DELETE'' ''/items''))"
    by (simp add: itemsRouter_def routeMatches_def request_def)
  have no2: "\<forall>route\<in>set (routes itemsRouter).
      \<not> routeMatches route (req_Method (request ''DELETE'' ''/other''))
          (URL_Path (request ''DELETE'' ''/other''))"
    by (simp add: itemsRouter_def routeMatches_def request_def)
  have r1: "handleRequest itemsRouter zeroContext (request ''DELETE'' ''/items'') =
     (None, zeroContext\<lparr>Writer :=
        [HeaderSet HeaderContentType ContentTypeJSON, WriteHeader 405,
         Encode [''error'' \<mapsto> AnyString ''Method Not Allowed'']], written := True\<rparr>)"
    using handleRequest_no_match [OF no1, of zeroContext]
    by (simp add: itemsRouter_def request_def zeroContext_def matchPath_def)
  have r2: "handleRequest itemsRouter zeroContext (request ''DELETE'' ''/other'') =
     (None, zeroContext\<lparr>Writer :=
        [HeaderSet HeaderContentType ContentTypeJSON, WriteHeader 404,
         Encode [''error'' \<mapsto> AnyString ''Not Found'']], written := True\<rparr>)"
    using handleRequest_no_match [OF no2, of zeroContext]
    by (simp add: itemsRouter_def request_def zeroContext_def match_defs)
  have r3: "Writer (ServeHTTP itemsRouter zeroContext [] (request ''DELETE'' ''/items'')) =
       [HeaderSet HeaderContentType ContentTypeJSON, WriteHeader 405,
        Encode [''error'' \<mapsto> AnyString ''Method Not Allowed'']]"
    by (simp add: itemsRouter_def handlerItems_def dispatch_defs match_defs)
  from r1 r2 r3 show ?thesis by simp
qed

section \<open>Properties of the room hub\<close>

lemmas hub_defs = getRoomClientIDs_def addToRoom_def removeFromRoom_def removeFromAllRooms_def

lemma members_applyOp:
  "fset (getRoomClientIDs (applyOp op h) room) = specStep room op (fset (getRoomClientIDs h room))"
  by (cases op) (auto simp: hub_defs Let_def fcard_0_eq split: option.splits if_splits)

lemma members_fold:
  "fset (getRoomClientIDs (fold applyOp ops h) room) =
     fold (specStep room) ops (fset (getRoomClientIDs h room))"
  by (induction ops arbitrary: h) (simp_all add: members_applyOp)

lemma members_runOps:
  "fset (getRoomClientIDs (runOps ops newBaseHub) room) = specMembers ops room"
proof -
  have "fset (getRoomClientIDs newBaseHub room) = {}"
    by (simp add: getRoomClientIDs_def newBaseHub_def)
  with members_fold [of ops newBaseHub room] show ?thesis
    by (simp add: runOps_def specMembers_def)
qed

lemma roomCount_members: "roomCount h room = fcard (getRoomClientIDs h room)"
  by (simp add: roomCount_def getRoomClientIDs_def split: option.splits)

lemma noEmptyRoom_applyOp: "noEmptyRoom h \<Longrightarrow> noEmptyRoom (applyOp op h)"
  by (cases op)
     (auto simp: noEmptyRoom_def hub_defs Let_def fcard_0_eq split: option.splits if_splits)

lemma noEmptyRoom_fold: "noEmptyRoom h \<Longrightarrow> noEmptyRoom (fold applyOp ops h)"
  by (induction ops arbitrary: h) (simp_all add: noEmptyRoom_applyOp)

lemma noEmptyRoom_runOps: "noEmptyRoom (runOps ops newBaseHub)"
proof -
  have "noEmptyRoom newBaseHub"
    by (simp add: noEmptyRoom_def newBaseHub_def)
  then show ?thesis
    unfolding runOps_def by (rule noEmptyRoom_fold)
qed

lemma addToRoom_member: "c |\<in>| getRoomClientIDs h room \<Longrightarrow> addToRoom c room h = h"
  by (auto simp: getRoomClientIDs_def addToRoom_def finsert_absorb fun_upd_idem
        split: option.splits)

lemma removeFromRoom_nonmember:
  "noEmptyRoom h \<Longrightarrow> c |\<notin>| getRoomClientIDs h room \<Longrightarrow> removeFromRoom c room h = h"
  by (auto simp: noEmptyRoom_def getRoomClientIDs_def removeFromRoom_def Let_def fcard_0_eq
        fun_upd_idem split: option.splits)

lemma specMembers_example:
  "specMembers [Join ''c1'' ''lobby'', Join ''c2'' ''lobby'', Leave ''c1'' ''lobby''] ''lobby''
     = {''c2''}"
  by (auto simp: specMembers_def)

text \<open>
  C5. After any finite sequence of join, leave and leaveAll operations on a new
  hub, the members of each room are exactly the clients that joined it and have not
  left it since, and the count of the room is the number of these clients. Joining
  a room one is in leaves the hub as it is, and so does leaving a room one is not
  in. In particular, after \<open>join("c1","lobby")\<close>, \<open>join("c1","lobby")\<close>,
  \<open>leave("c1","lobby")\<close> the count of \<open>lobby\<close> is 0.
\<close>

theorem hub_membership_is_joined_minus_left:
  "fset (getRoomClientIDs (runOps ops newBaseHub) room) = specMembers ops room
   \<and> roomCount (runOps ops newBaseHub) room = card (specMembers ops room)
   \<and> (c \<in> specMembers ops room \<longrightarrow>
        addToRoom c room (runOps ops newBaseHub) = runOps ops newBaseHub)
   \<and> (c' \<notin> specMembers ops room \<longrightarrow>
        removeFromRoom c' room (runOps ops newBaseHub) = runOps ops newBaseHub)
   \<and> roomCount (runOps [Join ''c1'' ''lobby'', Join ''c1'' ''lobby'', Leave ''c1'' ''lobby'']
                  newBaseHub) ''lobby'' = 0"
proof (intro conjI impI)
  show m: "fset (getRoomClientIDs (runOps ops newBaseHub) room) = specMembers ops room"
    by (rule members_runOps)
  show "roomCount (runOps ops newBaseHub) room = card (specMembers ops room)"
    by (simp add: roomCount_members fcard.rep_eq m)
  show "addToRoom c room (runOps ops newBaseHub) = runOps ops newBaseHub"
    if "c \<in> specMembers ops room"
    using that m by (intro addToRoom_member) simp
  show "removeFromRoom c' room (runOps ops newBaseHub) = runOps ops newBaseHub"
    if "c' \<notin> specMembers ops room"
    using that m by (intro removeFromRoom_nonmember noEmptyRoom_runOps) simp
  show "roomCount (runOps [Join ''c1'' ''lobby'', Join ''c1'' ''lobby'', Leave ''c1'' ''lobby'']
                  newBaseHub) ''lobby'' = 0"
    by (simp add: runOps_def roomCount_def addToRoom_def removeFromRoom_def newBaseHub_def)
qed

theorem hub_membership_is_joined_minus_left_witness:
  "fset (getRoomClientIDs
      (runOps [Join ''c1'' ''lobby'', Join ''c2'' ''lobby'', Leave ''c1'' ''lobby''] newBaseHub)
      ''lobby'') = {''c2''}
   \<and> roomCount
      (runOps [Join ''c1'' ''lobby'', Join ''c2'' ''lobby'', Leave ''c1'' ''lobby''] newBaseHub)
      ''lobby'' = 1
   \<and> addToRoom ''c2'' ''lobby''
      (runOps [Join ''c1'' ''lobby'', Join ''c2'' ''lobby'', Leave ''c1'' ''lobby''] newBaseHub)
      = runOps [Join ''c1'' ''lobby'', Join ''c2'' ''lobby'', Leave ''c1'' ''lobby''] newBaseHub
   \<and> removeFromRoom ''c1'' ''lobby''
      (runOps [Join ''c1'' ''lobby'', Join ''c2'' ''lobby'', Leave ''c1'' ''lobby''] newBaseHub)
      = runOps [Join ''c1'' ''lobby'', Join ''c2'' ''lobby'', Leave ''c1'' ''lobby''] newBaseHub"
  using hub_membership_is_joined_minus_left
    [where ops = "[Join ''c1'' ''lobby'', Join ''c2'' ''lobby'', Leave ''c1'' ''lobby'']"
       and room = "''lobby''" and c = "''c2''" and c' = "''c1''"]
  by (simp add: specMembers_example)

text \<open>
  C9 (as amended). For a client \<open>c\<close> that is not a member of room \<open>r\<close>, after
  \<open>join(c, r)\<close>, \<open>join(c, r)\<close>, \<open>leave(c, r)\<close> the client is not a member of \<open>r\<close>:
  the members and the count of \<open>r\<close> are what they were before the three calls.
\<close>

theorem join_join_leave_not_member:
  assumes "c |\<notin>| getRoomClientIDs h r"
  shows "c |\<notin>| getRoomClientIDs (removeFromRoom c r (addToRoom c r (addToRoom c r h))) r
     \<and> getRoomClientIDs (removeFromRoom c r (addToRoom c r (addToRoom c r h))) r
         = getRoomClientIDs h r
     \<and> roomCount (removeFromRoom c r (addToRoom c r (addToRoom c r h))) r = roomCount h r"
  using assms
  by (auto simp: roomCount_members getRoomClientIDs_def addToRoom_def removeFromRoom_def
        Let_def fcard_0_eq split: option.splits)

theorem join_join_leave_not_member_witness:
  "''c1'' |\<notin>| getRoomClientIDs (addToRoom ''c2'' ''lobby'' newBaseHub) ''lobby''
   \<and> getRoomClientIDs
       (removeFromRoom ''c1'' ''lobby'' (addToRoom ''c1'' ''lobby'' (addToRoom ''c1'' ''lobby''
          (addToRoom ''c2'' ''lobby'' newBaseHub)))) ''lobby'' = {|''c2''|}
   \<and> roomCount
       (removeFromRoom ''c1'' ''lobby'' (addToRoom ''c1'' ''lobby'' (addToRoom ''c1'' ''lobby''
          (addToRoom ''c2'' ''lobby'' newBaseHub)))) ''lobby'' = 1"
proof -
  have h: "''c1'' |\<notin>| getRoomClientIDs (addToRoom ''c2'' ''lobby'' newBaseHub) ''lobby''"
    by (simp add: getRoomClientIDs_def addToRoom_def newBaseHub_def)
  have g: "getRoomClientIDs (addToRoom ''c2'' ''lobby'' newBaseHub) ''lobby'' = {|''c2''|}"
    by (simp add: getRoomClientIDs_def addToRoom_def newBaseHub_def)
  have n: "roomCount (addToRoom ''c2'' ''lobby'' newBaseHub) ''lobby'' = 1"
    by (simp add: roomCount_def addToRoom_def newBaseHub_def fcard.rep_eq)
  from join_join_leave_not_member [OF h] h g n show ?thesis by simp
qed

text \<open>
  C9 as stated fails: on a new hub, after \<open>join("c1","lobby")\<close> twice and
  \<open>leave("c1","lobby")\<close> once, \<open>c1\<close> is not among the members of \<open>lobby\<close> and the
  count of \<open>lobby\<close> is 0.
\<close>

theorem join_join_leave_counterexample:
  "''c1'' |\<notin>| getRoomClientIDs newBaseHub ''lobby''
   \<and> ''c1'' |\<notin>| getRoomClientIDs
        (removeFromRoom ''c1'' ''lobby'' (addToRoom ''c1'' ''lobby''
           (addToRoom ''c1'' ''lobby'' newBaseHub))) ''lobby''
   \<and> roomCount
        (removeFromRoom ''c1'' ''lobby'' (addToRoom ''c1'' ''lobby''
           (addToRoom ''c1'' ''lobby'' newBaseHub))) ''lobby'' = 0"
  by (simp add: roomCount_def getRoomClientIDs_def addToRoom_def removeFromRoom_def
        newBaseHub_def)

section \<open>Properties of the captured parameters\<close>

lemma matchPath_slow:
  "pattern \<noteq> path \<Longrightarrow> matchPath pattern path =
     (if \<not> validatePartCounts (patternPartsOf pattern) (splitPath path) (hasWildcard pattern)
      then (False, None)
      else case matchParts (patternPartsOf pattern) (splitPath path) 0 Map.empty of
             None \<Rightarrow> (False, None)
           | Some ps \<Rightarrow>
               if hasWildcard pattern
               then (True, Some (ps(wildcardName pattern \<mapsto>
                       strings_Join (drop (length (patternPartsOf pattern)) (splitPath path)))))
               else (True, Some ps))"
proof -
  assume ne: "pattern \<noteq> path"
  obtain hw wn where cw: "checkWildcard (splitPath pattern) = (hw, wn)"
    by (cases "checkWildcard (splitPath pattern)")
  from ne show ?thesis
    unfolding matchPath_def patternPartsOf_def hasWildcard_def wildcardName_def Let_def cw
    by (cases hw) (simp_all split: option.splits)
qed

lemma matchParts_keeps:
  "matchParts pps pathParts i ps0 = Some ps \<Longrightarrow>
   \<forall>j<length pps. isParam (pps ! j) \<longrightarrow> paramName (pps ! j) \<noteq> n \<Longrightarrow>
   ps n = ps0 n"
proof (induction pps arbitrary: i ps0)
  case Nil
  then show ?case by simp
next
  case (Cons pp pps)
  from Cons.prems(2) have rest: "\<forall>j<length pps. isParam (pps ! j) \<longrightarrow> paramName (pps ! j) \<noteq> n"
    by auto
  from Cons.prems(2) have hd: "isParam pp \<longrightarrow> paramName pp \<noteq> n"
    by auto
  show ?case
  proof (cases "isParam pp")
    case True
    with Cons.prems(1) have "matchParts pps pathParts (i + 1) (ps0(paramName pp \<mapsto> pathParts ! i)) = Some ps"
      by (simp add: isParam_def paramName_def Let_def split: if_splits)
    from Cons.IH [OF this rest] True hd show ?thesis by simp
  next
    case False
    with Cons.prems(1) have "matchParts pps pathParts (i + 1) ps0 = Some ps"
      by (simp add: isParam_def Let_def split: if_splits)
    from Cons.IH [OF this rest] show ?thesis .
  qed
qed

lemma matchParts_segments:
  "matchParts pps pathParts i ps0 = Some ps \<Longrightarrow> k < length pps \<Longrightarrow>
   i + k < length pathParts
   \<and> (\<not> isParam (pps ! k) \<longrightarrow> pps ! k = pathParts ! (i + k))
   \<and> (isParam (pps ! k)
        \<and> (\<forall>j. k < j \<and> j < length pps \<and> isParam (pps ! j) \<longrightarrow> paramName (pps ! j) \<noteq> paramName (pps ! k))
       \<longrightarrow> ps (paramName (pps ! k)) = Some (pathParts ! (i + k)))"
proof (induction pps arbitrary: i ps0 k)
  case Nil
  then show ?case by simp
next
  case (Cons pp pps)
  from Cons.prems(1) have inb: "i < length pathParts"
    by (simp split: if_splits)
  from Cons.prems(1) inb obtain ps1 where
    rest: "matchParts pps pathParts (i + 1) ps1 = Some ps"
    and ps1: "ps1 = (if isParam pp then ps0(paramName pp \<mapsto> pathParts ! i) else ps0)"
    and lit: "\<not> isParam pp \<longrightarrow> pp = pathParts ! i"
    by (auto simp: isParam_def paramName_def Let_def split: if_splits)
  show ?case
  proof (cases k)
    case 0
    have bind: "isParam ((pp # pps) ! 0)
        \<and> (\<forall>j. 0 < j \<and> j < length (pp # pps) \<and> isParam ((pp # pps) ! j)
               \<longrightarrow> paramName ((pp # pps) ! j) \<noteq> paramName ((pp # pps) ! 0))
       \<longrightarrow> ps (paramName ((pp # pps) ! 0)) = Some (pathParts ! (i + 0))"
    proof (intro impI, elim conjE)
      assume a: "isParam ((pp # pps) ! 0)"
        and b: "\<forall>j. 0 < j \<and> j < length (pp # pps) \<and> isParam ((pp # pps) ! j)
               \<longrightarrow> paramName ((pp # pps) ! j) \<noteq> paramName ((pp # pps) ! 0)"
      have "\<forall>j<length pps. isParam (pps ! j) \<longrightarrow> paramName (pps ! j) \<noteq> paramName pp"
      proof (intro allI impI)
        fix j
        assume "j < length pps" and "isParam (pps ! j)"
        with b [rule_format, of "Suc j"] show "paramName (pps ! j) \<noteq> paramName pp"
          by simp
      qed
      from matchParts_keeps [OF rest this] ps1 a
      show "ps (paramName ((pp # pps) ! 0)) = Some (pathParts ! (i + 0))"
        by simp
    qed
    from inb lit have "i + 0 < length pathParts
        \<and> (\<not> isParam ((pp # pps) ! 0) \<longrightarrow> (pp # pps) ! 0 = pathParts ! (i + 0))"
      by simp
    with bind show ?thesis
      unfolding 0 by blast
  next
    case (Suc k')
    with Cons.prems(2) have "k' < length pps" by simp
    from Cons.IH [OF rest this] Suc show ?thesis
      by (auto simp: less_Suc_eq_0_disj)
  qed
qed


lemma matchParts_total:
  "\<forall>k<length pps. i + k < length pathParts \<and> (isParam (pps ! k) \<or> pps ! k = pathParts ! (i + k))
   \<Longrightarrow> \<exists>ps. matchParts pps pathParts i ps0 = Some ps"
proof (induction pps arbitrary: i ps0)
  case Nil
  then show ?case by simp
next
  case (Cons pp pps)
  from Cons.prems [rule_format, of 0] have h0: "i < length pathParts" "isParam pp \<or> pp = pathParts ! i"
    by auto
  have "\<forall>k<length pps. (i + 1) + k < length pathParts \<and> (isParam (pps ! k) \<or> pps ! k = pathParts ! ((i + 1) + k))"
  proof (intro allI impI)
    fix k assume "k < length pps"
    with Cons.prems [rule_format, of "Suc k"]
    show "(i + 1) + k < length pathParts \<and> (isParam (pps ! k) \<or> pps ! k = pathParts ! ((i + 1) + k))"
      by simp
  qed
  from Cons.IH [OF this] h0 show ?case
    by (auto simp: isParam_def Let_def)
qed

text \<open>
  C6 (as amended). When a pattern matches a path, every part of the pattern before
  the wildcard has a path segment at its position; a part that does not begin with
  \<open>:\<close> equals that segment, byte for byte. When moreover the path is not the
  very string of the pattern, the returned params bind the name of a part that
  begins with \<open>:\<close> to the segment at its position, unless a later parameter or the
  wildcard has the same name (the last binding of a name is the one returned).
\<close>

theorem matchPath_segments:
  assumes "matchPath pattern path = (True, pso)"
    and "i < length (patternPartsOf pattern)"
  shows "i < length (splitPath path)
     \<and> (\<not> isParam (patternPartsOf pattern ! i)
          \<longrightarrow> patternPartsOf pattern ! i = splitPath path ! i)
     \<and> (isParam (patternPartsOf pattern ! i) \<and> pattern \<noteq> path \<and> lastBinding pattern i
          \<longrightarrow> (\<exists>ps. pso = Some ps
                 \<and> ps (paramName (patternPartsOf pattern ! i)) = Some (splitPath path ! i)))"
proof (cases "pattern = path")
  case True
  with assms(2) show ?thesis
    by (auto simp: patternPartsOf_def split: if_splits)
next
  case False
  from assms(1) matchPath_slow [OF False] obtain ps where
    mp: "matchParts (patternPartsOf pattern) (splitPath path) 0 Map.empty = Some ps"
    and pso: "pso = Some (if hasWildcard pattern
                then ps(wildcardName pattern \<mapsto>
                       strings_Join (drop (length (patternPartsOf pattern)) (splitPath path)))
                else ps)"
    by (auto split: if_splits option.splits)
  note seg = matchParts_segments [OF mp assms(2)]
  have "\<exists>ps'. pso = Some ps'
          \<and> ps' (paramName (patternPartsOf pattern ! i)) = Some (splitPath path ! i)"
    if "isParam (patternPartsOf pattern ! i)" and "lastBinding pattern i"
  proof -
    have "paramName (patternPartsOf pattern ! j) \<noteq> paramName (patternPartsOf pattern ! i)"
      if "i < j" and "j < length (patternPartsOf pattern)"
        and "isParam (patternPartsOf pattern ! j)" for j
    proof -
      from that(1,2) have "patternPartsOf pattern ! j \<in> set (drop (Suc i) (patternPartsOf pattern))"
        by (auto simp: in_set_conv_nth intro!: exI [of _ "j - Suc i"])
      with that(3) have "paramName (patternPartsOf pattern ! j)
          \<in> set (map paramName (filter isParam (drop (Suc i) (patternPartsOf pattern))))"
        by simp
      moreover from \<open>lastBinding pattern i\<close> have "paramName (patternPartsOf pattern ! i)
          \<notin> set (map paramName (filter isParam (drop (Suc i) (patternPartsOf pattern))))"
        by (simp add: lastBinding_def Let_def)
      ultimately show ?thesis by metis
    qed
    with that(1) seg have "ps (paramName (patternPartsOf pattern ! i)) = Some (splitPath path ! i)"
      by simp
    with that(2) pso show ?thesis
      by (auto simp: lastBinding_def Let_def)
  qed
  with seg show ?thesis by auto
qed

theorem matchPath_segments_witness:
  "matchPath ''/users/:id'' ''/users/42'' = (True, Some [''id'' \<mapsto> ''42''])
   \<and> patternPartsOf ''/users/:id'' = [''users'', '':id'']
   \<and> splitPath ''/users/42'' = [''users'', ''42'']
   \<and> [''id'' \<mapsto> ''42''] ''id'' = Some ''42''"
proof -
  have m: "matchPath ''/users/:id'' ''/users/42'' = (True, Some [''id'' \<mapsto> ''42''])"
    by (simp add: match_defs)
  have pp: "patternPartsOf ''/users/:id'' = [''users'', '':id'']"
    by (simp add: match_defs patternPartsOf_def hasWildcard_def)
  have sp: "splitPath ''/users/42'' = [''users'', ''42'']"
    by (simp add: match_defs)
  have i: "1 < length (patternPartsOf ''/users/:id'')"
    by (simp add: pp)
  have lb: "isParam (patternPartsOf ''/users/:id'' ! 1) \<and> ''/users/:id'' \<noteq> ''/users/42''
      \<and> lastBinding ''/users/:id'' 1"
    by (simp add: pp lastBinding_def isParam_def paramName_def strings_HasPrefix_def
        hasWildcard_def splitPath_users_id checkWildcard_def)
  from matchPath_segments [OF m i] lb
  have "\<exists>ps. Some [''id'' \<mapsto> ''42''] = Some ps
          \<and> ps (paramName (patternPartsOf ''/users/:id'' ! 1)) = Some (splitPath ''/users/42'' ! 1)"
    by blast
  with m pp sp show ?thesis by simp
qed

text \<open>
  When the path is the very string of a pattern with a parameter, the early return
  for equal strings gives a match with empty params; the same segments with a
  trailing slash bind the name.
\<close>

lemma matchPath_param_equal_strings:
  "matchPath ''/users/:id'' ''/users/:id'' = (True, Some Map.empty)
   \<and> matchPath ''/users/:id'' ''/users/:id/'' = (True, Some [''id'' \<mapsto> '':id''])"
  by (simp add: match_defs)

text \<open>
  C6 as stated fails: \<open>/:a/:a\<close> matches \<open>/x/y\<close>, its first part begins with \<open>:\<close>
  and stands at the position of the segment \<open>x\<close>, but the returned params bind
  \<open>a\<close> to \<open>y\<close>.
\<close>

theorem matchPath_duplicate_name_counterexample:
  "matchPath ''/:a/:a'' ''/x/y'' = (True, Some [''a'' \<mapsto> ''y''])
   \<and> patternPartsOf ''/:a/:a'' = ['':a'', '':a'']
   \<and> splitPath ''/x/y'' = [''x'', ''y'']
   \<and> isParam (patternPartsOf ''/:a/:a'' ! 0)
   \<and> paramName (patternPartsOf ''/:a/:a'' ! 0) = ''a''
   \<and> [''a'' \<mapsto> ''y''] (paramName (patternPartsOf ''/:a/:a'' ! 0)) \<noteq> Some (splitPath ''/x/y'' ! 0)"
  by (simp add: match_defs patternPartsOf_def hasWildcard_def isParam_def paramName_def)

text \<open>
  The wildcard on the path that \<open>matchPath\<close> takes when the path is not the very
  string of the pattern: the match succeeds and binds the wildcard's name to the
  remaining segments joined by slashes, to the empty string when none remains.
\<close>

lemma matchPath_wildcard_slow_path:
  assumes "hasWildcard pattern" and "pattern \<noteq> path"
    and "length (patternPartsOf pattern) \<le> length (splitPath path)"
    and "\<forall>k<length (patternPartsOf pattern).
           isParam (patternPartsOf pattern ! k) \<or> patternPartsOf pattern ! k = splitPath path ! k"
  shows "\<exists>ps. matchPath pattern path = (True, Some ps)
     \<and> ps (wildcardName pattern) =
         Some (strings_Join (drop (length (patternPartsOf pattern)) (splitPath path)))
     \<and> (length (splitPath path) = length (patternPartsOf pattern) \<longrightarrow> ps (wildcardName pattern) = Some [])"
proof -
  from assms(3,4) have "\<forall>k<length (patternPartsOf pattern). 0 + k < length (splitPath path)
      \<and> (isParam (patternPartsOf pattern ! k) \<or> patternPartsOf pattern ! k = splitPath path ! (0 + k))"
    by auto
  from matchParts_total [OF this] obtain ps where
    "matchParts (patternPartsOf pattern) (splitPath path) 0 Map.empty = Some ps"
    by blast
  with assms(1,3) matchPath_slow [OF assms(2)] show ?thesis
    by (simp add: validatePartCounts_def)
qed

text \<open>
  C7, at the input where the code departs from it. For the pattern
  \<open>/static/*filepath\<close> and the path \<open>/static/*filepath\<close> the early return for
  equal strings gives a match with empty params: \<open>filepath\<close> is not bound to the
  remaining segment \<open>*filepath\<close>. The same segments reached with a trailing slash
  go through the comparison of the parts and bind it.
\<close>

theorem matchPath_wildcard_equal_strings:
  "matchPath ''/static/*filepath'' ''/static/*filepath'' = (True, Some Map.empty)
   \<and> splitPath ''/static/*filepath'' = [''static'', ''*filepath'']
   \<and> matchPath ''/static/*filepath'' ''/static/*filepath/''
       = (True, Some [''filepath'' \<mapsto> ''*filepath''])
   \<and> matchPath ''/static/*filepath'' ''/static/css/app.css''
       = (True, Some [''filepath'' \<mapsto> ''css/app.css''])"
  by (simp add: match_defs)

section \<open>Properties of the event pipeline\<close>

lemma emitLoop_nil: "emitLoop call hs None s = ([], s)"
  by (induction hs) simp_all

lemma emitAsyncLoop_nil: "emitAsyncLoop hs None = []"
  by (induction hs) simp_all

lemma emitLoop_ctx:
  "emitLoop call hs (Some c) s = (hs, fold (\<lambda>h. call h c) hs s)"
  by (induction hs arbitrary: s) simp_all

lemma handlersOf_On: "handlersOf (On event h p) event = handlersOf p event @ [h]"
  by (simp add: handlersOf_def On_def)

text \<open>
  With a context that is not nil, \<open>Emit\<close> invokes the handlers that were registered
  for the kind when it read the list, each once and in the order of registration,
  whatever the handlers do to the state; a handler that registers another one
  during the emission does not add it to this run.
\<close>

lemma Emit_with_context:
  "Emit call p event (Some c) s =
     (handlersOf p event, fold (\<lambda>h. call h c) (handlersOf p event) s)"
  by (simp add: Emit_def emitLoop_ctx)

lemma Emit_excludes_late_handler:
  "fst (Emit (\<lambda>h c q. On event late q) p event (Some c) p) = handlersOf p event"
  by (simp add: Emit_with_context)

text \<open>
  C8, at the input where the code departs from it. A handler registered with
  \<open>OnServerStart\<close> is registered for \<open>server_start\<close>, and \<open>Emit\<close> for that kind
  with a nil context, which is how \<open>Server.Run\<close> emits, invokes no handler; with
  a context it invokes the handler once.
\<close>

theorem Emit_nil_skips_registered_handler:
  "HasHandlers (OnServerStart f NewEventPipeline) EventServerStart
   \<and> Emit call (OnServerStart f NewEventPipeline) EventServerStart None s = ([], s)
   \<and> Emit call (OnServerStart f NewEventPipeline) EventServerStart (Some c) s
       = ([NoArg f], call (NoArg f) c s)"
  by (simp add: HasHandlers_def OnServerStart_def handlersOf_On Emit_def emitLoop_nil
      handlersOf_def NewEventPipeline_def On_def)

text \<open>
  C10. \<open>Emit\<close> with a nil context invokes no handler and leaves the state as it
  is, and \<open>EmitAsync\<close> with a nil context starts no goroutine, whatever handlers
  are registered. \<open>Server.Run\<close>, \<open>Server.Shutdown\<close> and the graceful shutdown
  emit with a nil context, so they invoke no handler, also none registered by
  \<open>OnServerStart\<close> or \<open>OnServerStop\<close>.
\<close>

theorem Emit_nil_invokes_no_handler:
  "Emit call p event None s = ([], s)
   \<and> EmitAsync p event (None :: 'c option) = []
   \<and> Server_Run_emit call p s = ([], s)
   \<and> Server_Shutdown_emit call up p s = ([], s)
   \<and> Server_runWithGracefulShutdown_emit call p s = ([], s)
   \<and> handlersOf (OnServerStart f q) EventServerStart = handlersOf q EventServerStart @ [NoArg f]
   \<and> Server_Run_emit call' (OnServerStart f q) s' = ([], s')
   \<and> handlersOf (OnServerStop f q) EventServerStop = handlersOf q EventServerStop @ [NoArg f]
   \<and> Server_Shutdown_emit call' up (OnServerStop f q) s' = ([], s')
   \<and> Server_runWithGracefulShutdown_emit call' (OnServerStop f q) s' = ([], s')"
  by (simp add: Emit_def EmitAsync_def emitLoop_nil emitAsyncLoop_nil Server_Run_emit_def
      Server_Shutdown_emit_def Server_runWithGracefulShutdown_emit_def OnServerStart_def
      OnServerStop_def handlersOf_On)

theorem Emit_nil_invokes_no_handler_witness:
  "handlersOf (OnServerStart (7::nat) NewEventPipeline) EventServerStart = [NoArg 7]
   \<and> Server_Run_emit (\<lambda>h (c::unit) (n::nat). n + 1) (OnServerStart (7::nat) NewEventPipeline) 0
       = ([], 0)"
  using Emit_nil_invokes_no_handler [where call' = "\<lambda>h (c::unit) (n::nat). n + 1"
      and f = "7::nat" and q = NewEventPipeline and s' = "0::nat",
      THEN conjunct2, THEN conjunct2, THEN conjunct2, THEN conjunct2, THEN conjunct2]
  by (simp add: handlersOf_def NewEventPipeline_def)

end
